theory Spec2Isabelle
  imports Main
begin

section \<open>The carousel of script.js\<close>

text \<open>
  The model follows \<^verbatim>\<open>class Carousel\<close> of \<^verbatim>\<open>src/script.js\<close>. The object's fields,
  the part of the DOM it writes, the three variables closed over by the touch listeners
  and the browser's timer table are the fields of one record; every method takes the
  state last and returns the updated state. Indices and pixel positions are integers.
\<close>

subsection \<open>Data\<close>

text \<open>A navigation button: its \<^verbatim>\<open>disabled\<close> property and \<^verbatim>\<open>aria-disabled\<close> attribute.\<close>

record button =
  disabled :: bool
  ariaDisabled :: bool

text \<open>An indicator: the presence of class \<^verbatim>\<open>active\<close> and its \<^verbatim>\<open>aria-selected\<close> attribute.\<close>

record indicator =
  active :: bool
  ariaSelected :: bool

text \<open>
  What a live timer of the browser runs when it fires: the arrow function given to
  \<^verbatim>\<open>setInterval\<close> in \<^verbatim>\<open>startAutoplay\<close>, or the one given to \<^verbatim>\<open>setTimeout\<close> in
  \<^verbatim>\<open>updateCarousel\<close>.
\<close>

datatype timer = AutoplayTick | AnimationUnlock

text \<open>
  \<^verbatim>\<open>slideCount\<close> is \<^verbatim>\<open>this.slides.length\<close>; \<^verbatim>\<open>trackOffset\<close> is the percentage written into
  \<^verbatim>\<open>track.style.transform\<close>; \<^verbatim>\<open>autoplayInterval\<close> is \<^verbatim>\<open>None\<close> for \<^verbatim>\<open>null\<close>;
  \<^verbatim>\<open>timers\<close> lists the handles that were set and neither cleared nor (for a timeout)
  fired, with what they run; \<^verbatim>\<open>nextHandle\<close> is the handle the browser hands out next.
  The browser hands out positive handles; a stored handle 0 would be falsy.
\<close>

record carousel =
  slideCount :: nat
  indicators :: "indicator list"
  prevButton :: button
  nextButton :: button
  trackOffset :: int
  currentIndex :: int
  isAnimating :: bool
  autoplayInterval :: "nat option"
  startX :: int
  currentX :: int
  isDragging :: bool
  timers :: "(nat \<times> timer) list"
  nextHandle :: nat

subsection \<open>The browser's timers\<close>

definition setTimer :: "timer \<Rightarrow> carousel \<Rightarrow> nat \<times> carousel" where
  "setTimer k s =
     (nextHandle s,
      s\<lparr>timers := timers s @ [(nextHandle s, k)], nextHandle := Suc (nextHandle s)\<rparr>)"

definition clearTimer :: "nat \<Rightarrow> carousel \<Rightarrow> carousel" where
  "clearTimer h s = s\<lparr>timers := filter (\<lambda>e. fst e \<noteq> h) (timers s)\<rparr>"

subsection \<open>Methods\<close>

definition updateButtonStates :: "carousel \<Rightarrow> carousel" where
  "updateButtonStates s =
     s\<lparr>prevButton := \<lparr>disabled = (currentIndex s = 0), ariaDisabled = (currentIndex s = 0)\<rparr>,
       nextButton := \<lparr>disabled = (currentIndex s = int (slideCount s) - 1),
                      ariaDisabled = (currentIndex s = int (slideCount s) - 1)\<rparr>\<rparr>"

definition updateIndicators :: "int \<Rightarrow> indicator list \<Rightarrow> indicator list" where
  "updateIndicators index inds =
     map (\<lambda>(i, ind). ind\<lparr>active := (int i = index), ariaSelected := (int i = index)\<rparr>)
       (enumerate 0 inds)"

definition updateCarousel :: "int \<Rightarrow> bool \<Rightarrow> carousel \<Rightarrow> carousel" where
  "updateCarousel index animate s =
     (if isAnimating s \<and> animate then s
      else
        let s1 = s\<lparr>isAnimating := True, currentIndex := index\<rparr>;
            s2 = s1\<lparr>trackOffset := - index * 100\<rparr>;
            s3 = s2\<lparr>indicators := updateIndicators index (indicators s2)\<rparr>;
            s4 = updateButtonStates s3
        in if animate then snd (setTimer AnimationUnlock s4)
           else s4\<lparr>isAnimating := False\<rparr>)"

definition startAutoplay :: "carousel \<Rightarrow> carousel" where
  "startAutoplay s =
     (let (h, s1) = setTimer AutoplayTick s in s1\<lparr>autoplayInterval := Some h\<rparr>)"

definition stopAutoplay :: "carousel \<Rightarrow> carousel" where
  "stopAutoplay s =
     (case autoplayInterval s of
        None \<Rightarrow> s
      | Some h \<Rightarrow> if h = 0 then s else (clearTimer h s)\<lparr>autoplayInterval := None\<rparr>)"

definition resetAutoplay :: "carousel \<Rightarrow> carousel" where
  "resetAutoplay s = startAutoplay (stopAutoplay s)"

definition "next" :: "carousel \<Rightarrow> carousel" where
  "next s =
     (if currentIndex s < int (slideCount s) - 1
      then resetAutoplay (updateCarousel (currentIndex s + 1) True s)
      else s)"

definition prev :: "carousel \<Rightarrow> carousel" where
  "prev s =
     (if currentIndex s > 0
      then resetAutoplay (updateCarousel (currentIndex s - 1) True s)
      else s)"

definition goToSlide :: "int \<Rightarrow> carousel \<Rightarrow> carousel" where
  "goToSlide index s = resetAutoplay (updateCarousel index True s)"

text \<open>The callback of the interval set by \<^verbatim>\<open>startAutoplay\<close>.\<close>

definition autoplayCallback :: "carousel \<Rightarrow> carousel" where
  "autoplayCallback s =
     (if currentIndex s < int (slideCount s) - 1 then next s
      else updateCarousel 0 True s)"

text \<open>The callback of the timeout set by \<^verbatim>\<open>updateCarousel\<close>.\<close>

definition unlockCallback :: "carousel \<Rightarrow> carousel" where
  "unlockCallback s = s\<lparr>isAnimating := False\<rparr>"

subsection \<open>Touch listeners of \<^verbatim>\<open>addTouchSupport\<close>\<close>

definition touchstart :: "int \<Rightarrow> carousel \<Rightarrow> carousel" where
  "touchstart clientX s = s\<lparr>startX := clientX, isDragging := True\<rparr>"

definition touchmove :: "int \<Rightarrow> carousel \<Rightarrow> carousel" where
  "touchmove clientX s = (if \<not> isDragging s then s else s\<lparr>currentX := clientX\<rparr>)"

text \<open>The local constants \<^verbatim>\<open>diff\<close> and \<^verbatim>\<open>threshold\<close> of the \<^verbatim>\<open>touchend\<close> listener.\<close>

definition touchDiff :: "carousel \<Rightarrow> int" where
  "touchDiff s = startX s - currentX s"

definition threshold :: int where
  "threshold = 50"

definition touchend :: "carousel \<Rightarrow> carousel" where
  "touchend s =
     (if \<not> isDragging s then s
      else
        let s1 = (if \<bar>touchDiff s\<bar> > threshold
                  then (if touchDiff s > 0 then next s else prev s)
                  else s)
        in s1\<lparr>isDragging := False\<rparr>)"

subsection \<open>Other listeners registered by \<^verbatim>\<open>init\<close>\<close>

definition keydown :: "string \<Rightarrow> carousel \<Rightarrow> carousel" where
  "keydown key s =
     (let s1 = (if key = ''ArrowLeft'' then prev s else s)
      in if key = ''ArrowRight'' then next s1 else s1)"

text \<open>
  The constructor followed by \<^verbatim>\<open>init\<close>, for a container with \<open>n\<close> slides and \<open>k\<close>
  indicators. Whatever the markup says about the indicators, the buttons and the
  track is overwritten by \<^verbatim>\<open>updateCarousel(0, false)\<close>, so the markup's values are
  taken as unset.
\<close>

definition markup :: "nat \<Rightarrow> nat \<Rightarrow> carousel" where
  "markup n k =
     \<lparr>slideCount = n,
      indicators = replicate k \<lparr>active = False, ariaSelected = False\<rparr>,
      prevButton = \<lparr>disabled = False, ariaDisabled = False\<rparr>,
      nextButton = \<lparr>disabled = False, ariaDisabled = False\<rparr>,
      trackOffset = 0,
      currentIndex = 0,
      isAnimating = False,
      autoplayInterval = None,
      startX = 0,
      currentX = 0,
      isDragging = False,
      timers = [],
      nextHandle = 1\<rparr>"

definition new_Carousel :: "nat \<Rightarrow> nat \<Rightarrow> carousel" where
  "new_Carousel n k = startAutoplay (updateCarousel 0 False (markup n k))"

subsection \<open>Events\<close>

text \<open>
  The events the carousel's listeners and timers react to. A click on indicator \<open>i\<close>
  has a listener only if that indicator exists; a timer fires only if it is live; a
  timeout leaves the table when it fires, an interval stays.
\<close>

datatype event =
    ClickNext
  | ClickPrev
  | ClickIndicator nat
  | KeyDown string
  | TouchStart int
  | TouchMove int
  | TouchEnd
  | MouseEnter
  | MouseLeave
  | TimerFires nat

definition fire :: "nat \<Rightarrow> carousel \<Rightarrow> carousel" where
  "fire h s =
     (case map_of (timers s) h of
        None \<Rightarrow> s
      | Some AutoplayTick \<Rightarrow> autoplayCallback s
      | Some AnimationUnlock \<Rightarrow> unlockCallback (clearTimer h s))"

fun step :: "event \<Rightarrow> carousel \<Rightarrow> carousel" where
  "step ClickNext s = next s"
| "step ClickPrev s = prev s"
| "step (ClickIndicator i) s = (if i < length (indicators s) then goToSlide (int i) s else s)"
| "step (KeyDown key) s = keydown key s"
| "step (TouchStart x) s = touchstart x s"
| "step (TouchMove x) s = touchmove x s"
| "step TouchEnd s = touchend s"
| "step MouseEnter s = stopAutoplay s"
| "step MouseLeave s = startAutoplay s"
| "step (TimerFires h) s = fire h s"

fun run :: "event list \<Rightarrow> carousel \<Rightarrow> carousel" where
  "run [] s = s"
| "run (e # es) s = run es (step e s)"

text \<open>What the page shows of the carousel.\<close>

definition rendered :: "carousel \<Rightarrow> int \<times> int \<times> indicator list \<times> button \<times> button" where
  "rendered s = (currentIndex s, trackOffset s, indicators s, prevButton s, nextButton s)"

text \<open>The autoplay intervals that are live.\<close>

definition liveAutoplay :: "carousel \<Rightarrow> nat list" where
  "liveAutoplay s = map fst (filter (\<lambda>e. snd e = AutoplayTick) (timers s))"

text \<open>The invariant of the index.\<close>

definition indexInRange :: "carousel \<Rightarrow> bool" where
  "indexInRange s = (0 \<le> currentIndex s \<and> currentIndex s < int (slideCount s))"

text \<open>The events that navigate by hand.\<close>

fun manual :: "event \<Rightarrow> bool" where
  "manual ClickNext = True"
| "manual ClickPrev = True"
| "manual (ClickIndicator i) = True"
| "manual (KeyDown key) = True"
| "manual TouchEnd = True"
| "manual e = False"

text \<open>
  The index is in range and every indicator stands for a slide: the invariant that the
  listeners and timers keep.
\<close>

definition stable :: "carousel \<Rightarrow> bool" where
  "stable s = (indexInRange s \<and> length (indicators s) \<le> slideCount s)"

text \<open>
  The handles in use are positive and below the one handed out next: the invariant of
  the timer table that the listeners and timers keep.
\<close>

definition handlesFresh :: "carousel \<Rightarrow> bool" where
  "handlesFresh s =
     (0 < nextHandle s
      \<and> list_all (\<lambda>e. 0 < fst e \<and> fst e < nextHandle s) (timers s)
      \<and> (case autoplayInterval s of None \<Rightarrow> True | Some g \<Rightarrow> 0 < g \<and> g < nextHandle s))"

section \<open>The page: \<^verbatim>\<open>DOMContentLoaded\<close> and the resize listener\<close>

text \<open>
  Objects live in a store and are named by their address. \<^verbatim>\<open>container\<close> tells whether
  \<^verbatim>\<open>document.querySelector('.carousel-container')\<close> finds an element;
  \<^verbatim>\<open>carouselInstance\<close> is that element's property of this name, \<^verbatim>\<open>None\<close> for
  \<^verbatim>\<open>undefined\<close>; \<^verbatim>\<open>resizeTimer\<close> is the time in milliseconds at which the pending
  timeout of the resize listener is due, \<^verbatim>\<open>None\<close> when none is pending. The last two
  fields are counters of the model, not of the program: how often the timeout's
  callback ran, and how often it called \<^verbatim>\<open>updateCarousel\<close>.
\<close>

record page =
  container :: bool
  store :: "nat \<rightharpoonup> carousel"
  carouselInstance :: "nat option"
  resizeTimer :: "nat option"
  callbackRuns :: nat
  resyncCalls :: nat

text \<open>
  The \<^verbatim>\<open>DOMContentLoaded\<close> listener, as far as the carousel goes: the object made by
  \<^verbatim>\<open>new Carousel(carouselContainer)\<close> is not assigned to anything, and is kept alive by
  its listeners only.
\<close>

definition domContentLoaded :: "bool \<Rightarrow> nat \<Rightarrow> nat \<Rightarrow> page" where
  "domContentLoaded present n k =
     \<lparr>container = present,
      store = (if present then [0 \<mapsto> new_Carousel n k] else Map.empty),
      carouselInstance = None,
      resizeTimer = None,
      callbackRuns = 0,
      resyncCalls = 0\<rparr>"

text \<open>The callback given to \<^verbatim>\<open>setTimeout\<close> by the resize listener.\<close>

definition resizeCallback :: "page \<Rightarrow> page" where
  "resizeCallback p =
     (let p1 = p\<lparr>callbackRuns := Suc (callbackRuns p)\<rparr>
      in if container p1 then
           (case carouselInstance p1 of
              None \<Rightarrow> p1
            | Some a \<Rightarrow>
                (case store p1 a of
                   None \<Rightarrow> p1
                 | Some c \<Rightarrow>
                     p1\<lparr>store := (store p1)(a \<mapsto> updateCarousel (currentIndex c) False c),
                        resyncCalls := Suc (resyncCalls p1)\<rparr>))
         else p1)"

text \<open>Time passes until \<open>t\<close>: a pending timeout that is due runs.\<close>

definition elapse :: "nat \<Rightarrow> page \<Rightarrow> page" where
  "elapse t p =
     (case resizeTimer p of
        None \<Rightarrow> p
      | Some due \<Rightarrow> if due \<le> t then resizeCallback (p\<lparr>resizeTimer := None\<rparr>) else p)"

text \<open>A resize event at time \<open>t\<close>: \<^verbatim>\<open>clearTimeout\<close>, then \<^verbatim>\<open>setTimeout(..., 250)\<close>.\<close>

definition resize :: "nat \<Rightarrow> page \<Rightarrow> page" where
  "resize t p = (elapse t p)\<lparr>resizeTimer := Some (t + 250)\<rparr>"

fun resizeBurst :: "nat list \<Rightarrow> page \<Rightarrow> page" where
  "resizeBurst [] p = p"
| "resizeBurst (t # ts) p = resizeBurst ts (resize t p)"

text \<open>
  A burst: resize events at times that do not decrease, each less than 250 ms after
  the one before; \<open>t\<close> is the time of the event before the first of the list.
\<close>

fun burst :: "nat \<Rightarrow> nat list \<Rightarrow> bool" where
  "burst t [] = True"
| "burst t (u # us) = (t \<le> u \<and> u < t + 250 \<and> burst u us)"

section \<open>Auxiliary facts\<close>

lemma startAutoplay_frame:
  "slideCount (startAutoplay s) = slideCount s"
  "indicators (startAutoplay s) = indicators s"
  "prevButton (startAutoplay s) = prevButton s"
  "nextButton (startAutoplay s) = nextButton s"
  "trackOffset (startAutoplay s) = trackOffset s"
  "currentIndex (startAutoplay s) = currentIndex s"
  "isAnimating (startAutoplay s) = isAnimating s"
  "startX (startAutoplay s) = startX s"
  "currentX (startAutoplay s) = currentX s"
  "isDragging (startAutoplay s) = isDragging s"
  by (simp_all add: startAutoplay_def setTimer_def)

lemma stopAutoplay_frame:
  "slideCount (stopAutoplay s) = slideCount s"
  "indicators (stopAutoplay s) = indicators s"
  "prevButton (stopAutoplay s) = prevButton s"
  "nextButton (stopAutoplay s) = nextButton s"
  "trackOffset (stopAutoplay s) = trackOffset s"
  "currentIndex (stopAutoplay s) = currentIndex s"
  "isAnimating (stopAutoplay s) = isAnimating s"
  "startX (stopAutoplay s) = startX s"
  "currentX (stopAutoplay s) = currentX s"
  "isDragging (stopAutoplay s) = isDragging s"
  "nextHandle (stopAutoplay s) = nextHandle s"
  by (simp_all add: stopAutoplay_def clearTimer_def split: option.split)

lemma resetAutoplay_frame:
  "slideCount (resetAutoplay s) = slideCount s"
  "indicators (resetAutoplay s) = indicators s"
  "prevButton (resetAutoplay s) = prevButton s"
  "nextButton (resetAutoplay s) = nextButton s"
  "trackOffset (resetAutoplay s) = trackOffset s"
  "currentIndex (resetAutoplay s) = currentIndex s"
  "isAnimating (resetAutoplay s) = isAnimating s"
  "startX (resetAutoplay s) = startX s"
  "currentX (resetAutoplay s) = currentX s"
  "isDragging (resetAutoplay s) = isDragging s"
  by (simp_all add: resetAutoplay_def startAutoplay_frame stopAutoplay_frame)

lemma length_updateIndicators: "length (updateIndicators index inds) = length inds"
  by (simp add: updateIndicators_def)

lemma updateCarousel_locked: "isAnimating s \<Longrightarrow> updateCarousel index True s = s"
  by (simp add: updateCarousel_def)

lemma updateCarousel_runs:
  assumes "\<not> (isAnimating s \<and> animate)"
  shows "currentIndex (updateCarousel index animate s) = index"
    and "trackOffset (updateCarousel index animate s) = - index * 100"
    and "indicators (updateCarousel index animate s) = updateIndicators index (indicators s)"
    and "prevButton (updateCarousel index animate s) =
           \<lparr>disabled = (index = 0), ariaDisabled = (index = 0)\<rparr>"
    and "nextButton (updateCarousel index animate s) =
           \<lparr>disabled = (index = int (slideCount s) - 1),
            ariaDisabled = (index = int (slideCount s) - 1)\<rparr>"
    and "isAnimating (updateCarousel index animate s) = animate"
  using assms
  by (auto simp: updateCarousel_def updateButtonStates_def setTimer_def Let_def)

lemma updateCarousel_frame:
  "slideCount (updateCarousel index animate s) = slideCount s"
  "length (indicators (updateCarousel index animate s)) = length (indicators s)"
  "startX (updateCarousel index animate s) = startX s"
  "currentX (updateCarousel index animate s) = currentX s"
  "isDragging (updateCarousel index animate s) = isDragging s"
  "autoplayInterval (updateCarousel index animate s) = autoplayInterval s"
  by (simp_all add: updateCarousel_def updateButtonStates_def setTimer_def Let_def
        length_updateIndicators)

subsection \<open>The index invariant\<close>

lemma stable_updateCarousel:
  assumes "stable s" "0 \<le> index" "index < int (slideCount s)"
  shows "stable (updateCarousel index animate s)"
proof (cases "isAnimating s \<and> animate")
  case True
  then show ?thesis using assms by (simp add: updateCarousel_def)
next
  case False
  then show ?thesis using assms
    by (simp add: stable_def indexInRange_def updateCarousel_runs(1) updateCarousel_frame)
qed

lemma stable_startAutoplay: "stable (startAutoplay s) = stable s"
  by (simp add: stable_def indexInRange_def startAutoplay_frame)

lemma stable_stopAutoplay: "stable (stopAutoplay s) = stable s"
  by (simp add: stable_def indexInRange_def stopAutoplay_frame)

lemma stable_resetAutoplay: "stable (resetAutoplay s) = stable s"
  by (simp add: stable_def indexInRange_def resetAutoplay_frame)

lemma stable_next:
  assumes "stable s"
  shows "stable (next s)"
proof (cases "currentIndex s < int (slideCount s) - 1")
  case True
  from assms have "0 \<le> currentIndex s + 1"
    by (simp add: stable_def indexInRange_def)
  moreover from True have "currentIndex s + 1 < int (slideCount s)"
    by simp
  ultimately have "stable (updateCarousel (currentIndex s + 1) True s)"
    using assms by (rule_tac stable_updateCarousel)
  with True show ?thesis
    by (simp add: next_def stable_resetAutoplay)
next
  case False
  with assms show ?thesis by (simp add: next_def)
qed

lemma stable_prev:
  assumes "stable s"
  shows "stable (prev s)"
proof (cases "currentIndex s > 0")
  case True
  then have "0 \<le> currentIndex s - 1"
    by simp
  moreover from assms have "currentIndex s - 1 < int (slideCount s)"
    by (simp add: stable_def indexInRange_def)
  ultimately have "stable (updateCarousel (currentIndex s - 1) True s)"
    using assms by (rule_tac stable_updateCarousel)
  with True show ?thesis
    by (simp add: prev_def stable_resetAutoplay)
next
  case False
  with assms show ?thesis by (simp add: prev_def)
qed

lemma stable_autoplayCallback:
  assumes "stable s"
  shows "stable (autoplayCallback s)"
proof (cases "currentIndex s < int (slideCount s) - 1")
  case True
  with assms show ?thesis
    by (simp add: autoplayCallback_def stable_next)
next
  case False
  from assms have "(0::int) < int (slideCount s)"
    by (simp add: stable_def indexInRange_def)
  with assms have "stable (updateCarousel 0 True s)"
    by (rule_tac stable_updateCarousel) simp_all
  with False show ?thesis
    by (simp add: autoplayCallback_def)
qed

lemma stable_touch:
  "stable (touchstart x s) = stable s"
  "stable (touchmove x s) = stable s"
  "stable (s\<lparr>isDragging := b\<rparr>) = stable s"
  by (simp_all add: stable_def indexInRange_def touchstart_def touchmove_def)

lemma stable_touchend: "stable s \<Longrightarrow> stable (touchend s)"
  by (simp add: touchend_def Let_def stable_touch stable_next stable_prev)

lemma stable_keydown: "stable s \<Longrightarrow> stable (keydown key s)"
  by (simp add: keydown_def Let_def stable_next stable_prev)

lemma stable_fire: "stable s \<Longrightarrow> stable (fire h s)"
  by (simp add: fire_def stable_autoplayCallback split: option.split timer.split)
     (simp add: stable_def indexInRange_def unlockCallback_def clearTimer_def)

lemma stable_step: "stable s \<Longrightarrow> stable (step e s)"
proof (cases e)
  case (ClickIndicator i)
  assume st: "stable s"
  show ?thesis
  proof (cases "i < length (indicators s)")
    case True
    with st have "int i < int (slideCount s)" by (simp add: stable_def)
    with st show ?thesis
      by (simp add: ClickIndicator True goToSlide_def stable_resetAutoplay stable_updateCarousel)
  next
    case False
    with st show ?thesis by (simp add: ClickIndicator)
  qed
qed (simp_all add: stable_next stable_prev stable_keydown stable_touch stable_touchend
       stable_stopAutoplay stable_startAutoplay stable_fire)

lemma stable_run: "stable s \<Longrightarrow> stable (run es s)"
  by (induction es arbitrary: s) (simp_all add: stable_step)

lemma stable_new_Carousel:
  assumes "1 \<le> n" "k \<le> n"
  shows "stable (new_Carousel n k)"
proof -
  from assms have "stable (markup n k)"
    by (simp add: stable_def indexInRange_def markup_def)
  moreover from assms have "(0::int) < int (slideCount (markup n k))"
    by (simp add: markup_def)
  ultimately have "stable (updateCarousel 0 False (markup n k))"
    by (rule_tac stable_updateCarousel) simp_all
  then show ?thesis
    by (simp add: new_Carousel_def stable_startAutoplay)
qed

section \<open>Claims\<close>

text \<open>
  Claim C1, amended. \<^verbatim>\<open>updateCarousel\<close> has no range check: with the lock clear,
  \<^verbatim>\<open>goToSlide(index)\<close> sets \<^verbatim>\<open>currentIndex\<close> to \<open>index\<close> whatever \<open>index\<close> is. The
  invariant \<open>0 \<le> currentIndex < slideCount\<close> holds after every sequence of events of
  the listeners and timers, from the constructed state, when there is at least one
  slide and there are no more indicators than slides.
\<close>

theorem index_invariant_without_range_check:
  "(\<not> isAnimating s \<longrightarrow> currentIndex (goToSlide index s) = index)
   \<and> (1 \<le> n \<and> k \<le> n \<longrightarrow> indexInRange (run es (new_Carousel n k)))"
proof -
  have "stable (run es (new_Carousel n k))" if "1 \<le> n" "k \<le> n"
    using that by (simp add: stable_run stable_new_Carousel)
  then show ?thesis
    by (simp add: stable_def goToSlide_def resetAutoplay_frame updateCarousel_runs)
qed

theorem index_invariant_without_range_check_witness:
  "\<not> isAnimating (new_Carousel 3 3) \<and> currentIndex (goToSlide 7 (new_Carousel 3 3)) = 7
   \<and> (1::nat) \<le> 3 \<and> (3::nat) \<le> 3
   \<and> indexInRange
        (run [ClickNext, TimerFires 2, ClickIndicator 2, TimerFires 4, TimerFires 5]
           (new_Carousel 3 3))"
proof -
  have "\<not> isAnimating (new_Carousel 3 3)"
    by code_simp
  then show ?thesis
    using index_invariant_without_range_check [of "new_Carousel 3 3" 7 3 3
        "[ClickNext, TimerFires 2, ClickIndicator 2, TimerFires 4, TimerFires 5]"]
    by simp
qed

text \<open>
  Claim C1 as stated fails: \<^verbatim>\<open>goToSlide(-1)\<close> on a fresh carousel of three slides is
  not a no-op and leaves the index at \<open>-1\<close>; with two slides and three indicators, a
  click on the third indicator leaves the index at 2.
\<close>

theorem goToSlide_out_of_range_counterexample:
  "goToSlide (- 1) (new_Carousel 3 3) \<noteq> new_Carousel 3 3
   \<and> currentIndex (goToSlide (- 1) (new_Carousel 3 3)) = - 1
   \<and> \<not> indexInRange (goToSlide (- 1) (new_Carousel 3 3))
   \<and> \<not> indexInRange (run [ClickIndicator 2] (new_Carousel 2 3))"
  by code_simp

text \<open>
  Claim C4. With the lock clear, \<^verbatim>\<open>next()\<close> on the last slide and \<^verbatim>\<open>prev()\<close> on the
  first one leave the whole state as it is, and the callback of the autoplay interval
  on the last slide sets \<^verbatim>\<open>currentIndex\<close> to 0.
\<close>

theorem manual_stops_autoplay_wraps:
  assumes "\<not> isAnimating s"
  shows "(currentIndex s = int (slideCount s) - 1 \<longrightarrow> next s = s \<and> step ClickNext s = s)
       \<and> (currentIndex s = 0 \<longrightarrow> prev s = s \<and> step ClickPrev s = s)
       \<and> (currentIndex s = int (slideCount s) - 1 \<longrightarrow> currentIndex (autoplayCallback s) = 0)
       \<and> (currentIndex s = int (slideCount s) - 1 \<and> map_of (timers s) h = Some AutoplayTick
            \<longrightarrow> currentIndex (step (TimerFires h) s) = 0)"
  using assms
  by (simp add: next_def prev_def autoplayCallback_def fire_def updateCarousel_runs)

theorem manual_stops_autoplay_wraps_witness:
  "\<not> isAnimating (run [ClickIndicator 2, TimerFires 2] (new_Carousel 3 3))
   \<and> currentIndex (run [ClickIndicator 2, TimerFires 2] (new_Carousel 3 3)) = int 3 - 1
   \<and> map_of (timers (run [ClickIndicator 2, TimerFires 2] (new_Carousel 3 3))) 3
       = Some AutoplayTick
   \<and> step ClickNext (run [ClickIndicator 2, TimerFires 2] (new_Carousel 3 3))
       = run [ClickIndicator 2, TimerFires 2] (new_Carousel 3 3)
   \<and> currentIndex
        (step (TimerFires 3) (run [ClickIndicator 2, TimerFires 2] (new_Carousel 3 3))) = 0
   \<and> \<not> isAnimating (new_Carousel 3 3) \<and> currentIndex (new_Carousel 3 3) = 0
   \<and> step ClickPrev (new_Carousel 3 3) = new_Carousel 3 3"
proof -
  let ?a = "run [ClickIndicator 2, TimerFires 2] (new_Carousel 3 3)"
  have a: "\<not> isAnimating ?a" "currentIndex ?a = int (slideCount ?a) - 1"
    "map_of (timers ?a) 3 = Some AutoplayTick" "slideCount ?a = 3"
    by code_simp+
  have b: "\<not> isAnimating (new_Carousel 3 3)" "currentIndex (new_Carousel 3 3) = 0"
    by code_simp+
  show ?thesis
    using a b manual_stops_autoplay_wraps [OF a(1), of 3]
      manual_stops_autoplay_wraps [OF b(1), of 1]
    by simp
qed

subsection \<open>What a re-render shows\<close>

lemma count_active_enumerate:
  "length (filter active
     (map (\<lambda>(i, ind). ind\<lparr>active := (int i = index), ariaSelected := (int i = index)\<rparr>)
        (enumerate n inds)))
   = (if int n \<le> index \<and> index < int n + int (length inds) then 1 else 0)"
  by (induction inds arbitrary: n) (auto simp del: length_0_conv)

lemma count_selected_enumerate:
  "length (filter ariaSelected
     (map (\<lambda>(i, ind). ind\<lparr>active := (int i = index), ariaSelected := (int i = index)\<rparr>)
        (enumerate n inds)))
   = (if int n \<le> index \<and> index < int n + int (length inds) then 1 else 0)"
  by (induction inds arbitrary: n) (auto simp del: length_0_conv)

lemma count_updateIndicators:
  "length (filter active (updateIndicators index inds))
   = (if 0 \<le> index \<and> index < int (length inds) then 1 else 0)"
  "length (filter ariaSelected (updateIndicators index inds))
   = (if 0 \<le> index \<and> index < int (length inds) then 1 else 0)"
  using count_active_enumerate [of index 0 inds] count_selected_enumerate [of index 0 inds]
  by (simp_all add: updateIndicators_def)

lemma nth_updateIndicators:
  "i < length inds \<Longrightarrow>
   active (updateIndicators index inds ! i) = (int i = index)
   \<and> ariaSelected (updateIndicators index inds ! i) = (int i = index)"
  by (simp add: updateIndicators_def nth_enumerate_eq)

text \<open>
  Claim C2, amended. For every valid index, after \<^verbatim>\<open>updateCarousel(index, false)\<close>:
  \<^verbatim>\<open>currentIndex\<close> is \<open>index\<close>, the track offset is \<open>-index * 100\<close> percent, each
  indicator that exists is active and \<^verbatim>\<open>aria-selected\<close> iff its position is \<open>index\<close>
  (so exactly one is when the container has an indicator at position \<open>index\<close>, and
  none is otherwise), the previous button is disabled and \<^verbatim>\<open>aria-disabled\<close> iff
  \<open>index = 0\<close>, the next button iff \<open>index = slideCount - 1\<close>, and the lock is clear.
\<close>

theorem updateCarousel_renders_index:
  assumes "0 \<le> index" "index < int (slideCount s)"
  shows "currentIndex (updateCarousel index False s) = index
       \<and> trackOffset (updateCarousel index False s) = - index * 100
       \<and> length (indicators (updateCarousel index False s)) = length (indicators s)
       \<and> (\<forall>i < length (indicators s).
            active (indicators (updateCarousel index False s) ! i) = (int i = index)
            \<and> ariaSelected (indicators (updateCarousel index False s) ! i) = (int i = index))
       \<and> length (filter active (indicators (updateCarousel index False s)))
           = (if index < int (length (indicators s)) then 1 else 0)
       \<and> length (filter ariaSelected (indicators (updateCarousel index False s)))
           = (if index < int (length (indicators s)) then 1 else 0)
       \<and> disabled (prevButton (updateCarousel index False s)) = (index = 0)
       \<and> ariaDisabled (prevButton (updateCarousel index False s)) = (index = 0)
       \<and> disabled (nextButton (updateCarousel index False s))
           = (index = int (slideCount s) - 1)
       \<and> ariaDisabled (nextButton (updateCarousel index False s))
           = (index = int (slideCount s) - 1)
       \<and> \<not> isAnimating (updateCarousel index False s)"
  using assms
  by (simp add: updateCarousel_runs length_updateIndicators nth_updateIndicators
        count_updateIndicators del: length_0_conv)

theorem updateCarousel_renders_index_witness:
  "(0::int) \<le> 2 \<and> 2 < int (slideCount (new_Carousel 3 3))
   \<and> (2::nat) < length (indicators (new_Carousel 3 3))
   \<and> currentIndex (updateCarousel 2 False (new_Carousel 3 3)) = 2
   \<and> trackOffset (updateCarousel 2 False (new_Carousel 3 3)) = - 200
   \<and> active (indicators (updateCarousel 2 False (new_Carousel 3 3)) ! 2)
   \<and> length (filter active (indicators (updateCarousel 2 False (new_Carousel 3 3)))) = 1
   \<and> \<not> disabled (prevButton (updateCarousel 2 False (new_Carousel 3 3)))
   \<and> disabled (nextButton (updateCarousel 2 False (new_Carousel 3 3)))"
proof -
  have h: "(0::int) \<le> 2" "2 < int (slideCount (new_Carousel 3 3))"
    "(2::nat) < length (indicators (new_Carousel 3 3))"
    "slideCount (new_Carousel 3 3) = 3" "length (indicators (new_Carousel 3 3)) = 3"
    by code_simp+
  show ?thesis
    using h updateCarousel_renders_index [OF h(1) h(2)]
    by simp
qed

text \<open>
  Claim C2 as stated fails where the container has fewer indicators than slides: with
  three slides and two indicators, index 2 is valid and no indicator is active after
  \<^verbatim>\<open>updateCarousel(2, false)\<close>.
\<close>

theorem no_indicator_active_counterexample:
  "(0::int) \<le> 2 \<and> 2 < int (slideCount (new_Carousel 3 2))
   \<and> currentIndex (updateCarousel 2 False (new_Carousel 3 2)) = 2
   \<and> filter active (indicators (updateCarousel 2 False (new_Carousel 3 2))) = []
   \<and> filter ariaSelected (indicators (updateCarousel 2 False (new_Carousel 3 2))) = []"
  by code_simp

subsection \<open>The autoplay tick\<close>

lemma nextHandle_updateCarousel:
  "nextHandle (updateCarousel index True s) = (if isAnimating s then nextHandle s else Suc (nextHandle s))"
  by (simp add: updateCarousel_def updateButtonStates_def setTimer_def Let_def)

lemma fresh_updateCarousel: "handlesFresh s \<Longrightarrow> handlesFresh (updateCarousel index animate s)"
  by (auto simp: handlesFresh_def updateCarousel_def updateButtonStates_def setTimer_def Let_def
        list_all_iff split: option.splits)

lemma fresh_startAutoplay: "handlesFresh s \<Longrightarrow> handlesFresh (startAutoplay s)"
  by (auto simp: handlesFresh_def startAutoplay_def setTimer_def list_all_iff split: option.splits)

lemma fresh_stopAutoplay: "handlesFresh s \<Longrightarrow> handlesFresh (stopAutoplay s)"
  by (auto simp: handlesFresh_def stopAutoplay_def clearTimer_def list_all_iff split: option.splits)

lemma fresh_resetAutoplay: "handlesFresh s \<Longrightarrow> handlesFresh (resetAutoplay s)"
  by (simp add: resetAutoplay_def fresh_startAutoplay fresh_stopAutoplay)

lemma fresh_next: "handlesFresh s \<Longrightarrow> handlesFresh (next s)"
  by (simp add: next_def fresh_resetAutoplay fresh_updateCarousel)

lemma fresh_prev: "handlesFresh s \<Longrightarrow> handlesFresh (prev s)"
  by (simp add: prev_def fresh_resetAutoplay fresh_updateCarousel)

lemma fresh_goToSlide: "handlesFresh s \<Longrightarrow> handlesFresh (goToSlide i s)"
  by (simp add: goToSlide_def fresh_resetAutoplay fresh_updateCarousel)

lemma fresh_autoplayCallback: "handlesFresh s \<Longrightarrow> handlesFresh (autoplayCallback s)"
  by (simp add: autoplayCallback_def fresh_next fresh_updateCarousel)

lemma fresh_touch:
  "handlesFresh (touchstart x s) = handlesFresh s"
  "handlesFresh (touchmove x s) = handlesFresh s"
  "handlesFresh (s\<lparr>isDragging := b\<rparr>) = handlesFresh s"
  by (simp_all add: handlesFresh_def touchstart_def touchmove_def split: option.split)

lemma fresh_touchend: "handlesFresh s \<Longrightarrow> handlesFresh (touchend s)"
  by (simp add: touchend_def Let_def fresh_touch fresh_next fresh_prev)

lemma fresh_keydown: "handlesFresh s \<Longrightarrow> handlesFresh (keydown key s)"
  by (simp add: keydown_def Let_def fresh_next fresh_prev)

lemma fresh_unlock: "handlesFresh s \<Longrightarrow> handlesFresh (unlockCallback (clearTimer h s))"
  by (auto simp: handlesFresh_def unlockCallback_def clearTimer_def list_all_iff
        split: option.splits)

lemma fresh_fire: "handlesFresh s \<Longrightarrow> handlesFresh (fire h s)"
  by (simp add: fire_def fresh_autoplayCallback fresh_unlock split: option.split timer.split)

lemma fresh_step: "handlesFresh s \<Longrightarrow> handlesFresh (step e s)"
  by (cases e)
     (simp_all add: fresh_next fresh_prev fresh_goToSlide fresh_keydown fresh_touch
        fresh_touchend fresh_stopAutoplay fresh_startAutoplay fresh_fire)

lemma fresh_run: "handlesFresh s \<Longrightarrow> handlesFresh (run es s)"
  by (induction es arbitrary: s) (simp_all add: fresh_step)

lemma fresh_new_Carousel: "handlesFresh (new_Carousel n k)"
proof -
  have "handlesFresh (markup n k)"
    by (simp add: handlesFresh_def markup_def)
  then show ?thesis
    by (simp add: new_Carousel_def fresh_startAutoplay fresh_updateCarousel)
qed

lemma timers_updateCarousel:
  "timers (updateCarousel index True s)
   = (if isAnimating s then timers s else timers s @ [(nextHandle s, AnimationUnlock)])"
  by (simp add: updateCarousel_def updateButtonStates_def setTimer_def Let_def)

lemma resetAutoplay_stores_new:
  "autoplayInterval (resetAutoplay s) = Some (nextHandle s)"
  "(nextHandle s, AutoplayTick) \<in> set (timers (resetAutoplay s))"
  by (simp_all add: resetAutoplay_def startAutoplay_def setTimer_def stopAutoplay_frame)

lemma resetAutoplay_clears_stored:
  assumes "autoplayInterval s = Some g" "0 < g" "g < nextHandle s"
  shows "g \<notin> fst ` set (timers (resetAutoplay s))"
  using assms
  by (auto simp: resetAutoplay_def stopAutoplay_def startAutoplay_def setTimer_def clearTimer_def)

lemma resetAutoplay_keeps_others:
  assumes "(h, k) \<in> set (timers s)" "autoplayInterval s \<noteq> Some h"
  shows "(h, k) \<in> set (timers (resetAutoplay s))"
  using assms
  by (auto simp: resetAutoplay_def stopAutoplay_def startAutoplay_def setTimer_def clearTimer_def
        split: option.splits)

text \<open>
  Claim C3, amended. In every state reached from construction, when a live autoplay
  interval fires and \<open>currentIndex < slideCount - 1\<close>, its callback runs \<^verbatim>\<open>next()\<close> as a
  whole: \<^verbatim>\<open>currentIndex\<close> advances by one when the lock is clear and stays when it is
  set, and in both cases \<^verbatim>\<open>resetAutoplay\<close> runs: the interval stored in
  \<^verbatim>\<open>autoplayInterval\<close> is cleared, and a newly created interval is started and stored.
  So when the interval that fired is the stored one, the tick stops and restarts it.
\<close>

theorem autoplay_tick_restarts_autoplay:
  assumes "s = run es (new_Carousel n k)"
    and "currentIndex s < int (slideCount s) - 1"
    and "map_of (timers s) h = Some AutoplayTick"
  shows "step (TimerFires h) s = next s
       \<and> currentIndex (step (TimerFires h) s)
           = (if isAnimating s then currentIndex s else currentIndex s + 1)
       \<and> (autoplayInterval s = Some g \<longrightarrow> g \<notin> fst ` set (timers (step (TimerFires h) s)))
       \<and> (autoplayInterval s = Some h \<longrightarrow> h \<notin> fst ` set (timers (step (TimerFires h) s)))
       \<and> autoplayInterval (step (TimerFires h) s)
           = Some (if isAnimating s then nextHandle s else Suc (nextHandle s))
       \<and> (if isAnimating s then nextHandle s else Suc (nextHandle s)) \<notin> fst ` set (timers s)
       \<and> ((if isAnimating s then nextHandle s else Suc (nextHandle s)), AutoplayTick)
           \<in> set (timers (step (TimerFires h) s))"
proof -
  let ?u = "updateCarousel (currentIndex s + 1) True s"
  have fresh: "handlesFresh s"
    using assms(1) by (simp add: fresh_run fresh_new_Carousel)
  have tick: "step (TimerFires h) s = next s"
    using assms(2,3) by (simp add: fire_def autoplayCallback_def)
  have nxt: "next s = resetAutoplay ?u"
    using assms(2) by (simp add: next_def)
  have idx: "currentIndex ?u = (if isAnimating s then currentIndex s else currentIndex s + 1)"
    by (simp add: updateCarousel_locked updateCarousel_runs)
  have new: "(if isAnimating s then nextHandle s else Suc (nextHandle s)) \<notin> fst ` set (timers s)"
    using fresh by (auto simp: handlesFresh_def list_all_iff)
  have stored: "x \<notin> fst ` set (timers (resetAutoplay ?u))" if "autoplayInterval s = Some x" for x
  proof -
    from that fresh have "0 < x" "x < nextHandle s"
      by (simp_all add: handlesFresh_def)
    then have "0 < x" "x < nextHandle ?u"
      by (simp_all add: nextHandle_updateCarousel)
    moreover from that have "autoplayInterval ?u = Some x"
      by (simp add: updateCarousel_frame)
    ultimately show ?thesis
      by (rule_tac resetAutoplay_clears_stored)
  qed
  show ?thesis
    unfolding tick nxt
    using resetAutoplay_stores_new [of ?u] idx new stored [of g] stored [of h]
    by (simp add: resetAutoplay_frame nextHandle_updateCarousel)
qed

theorem autoplay_tick_restarts_autoplay_witness:
  "new_Carousel 3 3 = run [] (new_Carousel 3 3)
   \<and> currentIndex (new_Carousel 3 3) < int (slideCount (new_Carousel 3 3)) - 1
   \<and> map_of (timers (new_Carousel 3 3)) 1 = Some AutoplayTick
   \<and> autoplayInterval (new_Carousel 3 3) = Some 1
   \<and> currentIndex (step (TimerFires 1) (new_Carousel 3 3)) = 1
   \<and> 1 \<notin> fst ` set (timers (step (TimerFires 1) (new_Carousel 3 3)))
   \<and> autoplayInterval (step (TimerFires 1) (new_Carousel 3 3)) = Some 3
   \<and> currentIndex (run [MouseLeave] (new_Carousel 3 3))
       < int (slideCount (run [MouseLeave] (new_Carousel 3 3))) - 1
   \<and> map_of (timers (run [MouseLeave] (new_Carousel 3 3))) 1 = Some AutoplayTick
   \<and> autoplayInterval (run [MouseLeave] (new_Carousel 3 3)) = Some 2
   \<and> 2 \<notin> fst ` set (timers (step (TimerFires 1) (run [MouseLeave] (new_Carousel 3 3))))
   \<and> autoplayInterval (step (TimerFires 1) (run [MouseLeave] (new_Carousel 3 3))) = Some 4"
proof -
  let ?a = "new_Carousel 3 3"
  let ?b = "run [MouseLeave] (new_Carousel 3 3)"
  have a: "?a = run [] ?a"
    "currentIndex ?a < int (slideCount ?a) - 1"
    "map_of (timers ?a) 1 = Some AutoplayTick"
    by code_simp+
  have b: "?b = run [MouseLeave] ?a"
    "currentIndex ?b < int (slideCount ?b) - 1"
    "map_of (timers ?b) 1 = Some AutoplayTick"
    by code_simp+
  have v: "autoplayInterval ?a = Some 1" "\<not> isAnimating ?a" "currentIndex ?a = 0"
    "nextHandle ?a = 2" "autoplayInterval ?b = Some 2" "\<not> isAnimating ?b" "nextHandle ?b = 3"
    by code_simp+
  show ?thesis
    using a(2,3) b(2,3) v autoplay_tick_restarts_autoplay [OF a, of 1] autoplay_tick_restarts_autoplay [OF b, of 2]
    by auto
qed

text \<open>
  Claim C3 as stated fails: on a fresh carousel of three slides the tick of interval 1
  clears interval 1 and starts interval 3.
\<close>

theorem autoplay_tick_restart_counterexample:
  "currentIndex (new_Carousel 3 3) < int (slideCount (new_Carousel 3 3)) - 1
   \<and> autoplayInterval (new_Carousel 3 3) = Some 1
   \<and> timers (new_Carousel 3 3) = [(1, AutoplayTick)]
   \<and> autoplayInterval (step (TimerFires 1) (new_Carousel 3 3)) = Some 3
   \<and> timers (step (TimerFires 1) (new_Carousel 3 3)) = [(2, AnimationUnlock), (3, AutoplayTick)]"
  by code_simp

text \<open>
  An autoplay interval that fires without being the stored one is not cleared by its
  tick.
\<close>

lemma leaked_interval_survives_tick:
  assumes "currentIndex s < int (slideCount s) - 1"
    and "map_of (timers s) h = Some AutoplayTick"
    and "autoplayInterval s \<noteq> Some h"
  shows "(h, AutoplayTick) \<in> set (timers (step (TimerFires h) s))"
proof -
  let ?u = "updateCarousel (currentIndex s + 1) True s"
  from assms(2) have "(h, AutoplayTick) \<in> set (timers s)"
    by (rule map_of_SomeD)
  then have "(h, AutoplayTick) \<in> set (timers ?u)"
    by (simp add: timers_updateCarousel)
  moreover from assms(3) have "autoplayInterval ?u \<noteq> Some h"
    by (simp add: updateCarousel_frame)
  ultimately have "(h, AutoplayTick) \<in> set (timers (resetAutoplay ?u))"
    by (rule resetAutoplay_keeps_others)
  with assms(1,2) show ?thesis
    by (simp add: fire_def autoplayCallback_def next_def)
qed

subsection \<open>The animation lock\<close>

lemma rendered_frame:
  "rendered (resetAutoplay s) = rendered s"
  "rendered (s\<lparr>isDragging := b\<rparr>) = rendered s"
  "rendered (unlockCallback (clearTimer h s)) = rendered s"
  "\<not> isAnimating (unlockCallback s)"
  by (simp_all add: rendered_def resetAutoplay_frame unlockCallback_def clearTimer_def)

lemma locked_next: "isAnimating s \<Longrightarrow> rendered (next s) = rendered s \<and> isAnimating (next s)"
  by (simp add: next_def updateCarousel_locked rendered_frame resetAutoplay_frame)

lemma locked_prev: "isAnimating s \<Longrightarrow> rendered (prev s) = rendered s \<and> isAnimating (prev s)"
  by (simp add: prev_def updateCarousel_locked rendered_frame resetAutoplay_frame)

lemma locked_goToSlide:
  "isAnimating s \<Longrightarrow> rendered (goToSlide i s) = rendered s \<and> isAnimating (goToSlide i s)"
  by (simp add: goToSlide_def updateCarousel_locked rendered_frame resetAutoplay_frame)

lemma locked_keydown:
  "isAnimating s \<Longrightarrow> rendered (keydown key s) = rendered s \<and> isAnimating (keydown key s)"
  by (simp add: keydown_def Let_def locked_next locked_prev)

lemma locked_touchend:
  "isAnimating s \<Longrightarrow> rendered (touchend s) = rendered s \<and> isAnimating (touchend s)"
  by (simp add: touchend_def Let_def locked_next locked_prev rendered_frame)

lemma locked_manual:
  assumes "isAnimating s" "manual e"
  shows "rendered (step e s) = rendered s \<and> isAnimating (step e s)"
  using assms
  by (cases e) (simp_all add: locked_next locked_prev locked_goToSlide locked_keydown locked_touchend)

text \<open>
  Claim C5. While \<^verbatim>\<open>isAnimating\<close> is true, \<^verbatim>\<open>updateCarousel(index, true)\<close> returns the
  state as it is, and every manual navigation (button, indicator, arrow key, swipe)
  leaves \<^verbatim>\<open>currentIndex\<close>, the track offset, the indicators and the buttons as they
  are, with the lock still set; when the lock's timeout fires afterwards it clears the
  lock and nothing else that is shown, so the dropped call is not replayed.
\<close>

theorem animated_navigation_dropped_while_locked:
  assumes "isAnimating s" and "manual e"
  shows "updateCarousel index True s = s
       \<and> rendered (step e s) = rendered s
       \<and> isAnimating (step e s)
       \<and> (map_of (timers (step e s)) h = Some AnimationUnlock \<longrightarrow>
            \<not> isAnimating (step (TimerFires h) (step e s))
            \<and> rendered (step (TimerFires h) (step e s)) = rendered s)"
  using locked_manual [OF assms] assms(1)
  by (simp add: updateCarousel_locked fire_def rendered_frame)

theorem animated_navigation_dropped_while_locked_witness:
  "isAnimating (step ClickNext (new_Carousel 3 3)) \<and> manual ClickNext
   \<and> map_of (timers (step ClickNext (step ClickNext (new_Carousel 3 3)))) 2 = Some AnimationUnlock
   \<and> currentIndex (step ClickNext (new_Carousel 3 3)) = 1
   \<and> rendered (step ClickNext (step ClickNext (new_Carousel 3 3)))
        = rendered (step ClickNext (new_Carousel 3 3))
   \<and> \<not> isAnimating (step (TimerFires 2) (step ClickNext (step ClickNext (new_Carousel 3 3))))
   \<and> rendered (step (TimerFires 2) (step ClickNext (step ClickNext (new_Carousel 3 3))))
        = rendered (step ClickNext (new_Carousel 3 3))"
proof -
  let ?s = "step ClickNext (new_Carousel 3 3)"
  have h: "isAnimating ?s" "manual ClickNext"
    "map_of (timers (step ClickNext ?s)) 2 = Some AnimationUnlock"
    "currentIndex ?s = 1"
    by code_simp+
  show ?thesis
    using h animated_navigation_dropped_while_locked [OF h(1) h(2), of 0 2]
    by simp
qed

text \<open>
  Claim C7, amended. After \<^verbatim>\<open>updateCarousel(currentIndex, false)\<close> returns,
  \<^verbatim>\<open>isAnimating\<close> is false in every state, whatever it was before the call; the index
  is the same and no timeout is scheduled. So a clear lock is clear again afterwards,
  and a lock that was set by a transition in flight is released by the call.
\<close>

theorem resync_leaves_lock_clear:
  "\<not> isAnimating (updateCarousel (currentIndex s) False s)
   \<and> currentIndex (updateCarousel (currentIndex s) False s) = currentIndex s
   \<and> timers (updateCarousel (currentIndex s) False s) = timers s"
  by (simp add: updateCarousel_def updateButtonStates_def Let_def)

text \<open>
  Claim C7 as stated fails: right after a click on next the lock is set, and the
  re-sync clears it.
\<close>

theorem resync_clears_set_lock_counterexample:
  "isAnimating (run [ClickNext] (new_Carousel 3 3))
   \<and> \<not> isAnimating (updateCarousel (currentIndex (run [ClickNext] (new_Carousel 3 3))) False
          (run [ClickNext] (new_Carousel 3 3)))"
  by code_simp

subsection \<open>Autoplay intervals\<close>

lemma startAutoplay_adds: "liveAutoplay (startAutoplay s) = liveAutoplay s @ [nextHandle s]"
  by (simp add: liveAutoplay_def startAutoplay_def setTimer_def)

text \<open>
  Claim C8 fails on the code: \<^verbatim>\<open>startAutoplay\<close> sets a new interval without clearing the
  stored one. After construction one interval is live; after hover-enter, a click on
  next and hover-leave, intervals 3 and 4 are both live and only 4 is stored; a
  hover-leave right after construction leaves intervals 1 and 2 live.
\<close>

theorem hover_leaks_autoplay_interval:
  "liveAutoplay (new_Carousel 3 3) = [1]
   \<and> liveAutoplay (run [MouseEnter, ClickNext, MouseLeave] (new_Carousel 3 3)) = [3, 4]
   \<and> autoplayInterval (run [MouseEnter, ClickNext, MouseLeave] (new_Carousel 3 3)) = Some 4
   \<and> liveAutoplay (run [MouseLeave] (new_Carousel 3 3)) = [1, 2]"
  by code_simp

subsection \<open>Touch gestures\<close>

lemma run_append: "run (es @ fs) s = run fs (run es s)"
  by (induction es arbitrary: s) simp_all

lemma run_touchmoves:
  "isDragging s \<Longrightarrow> run (map TouchMove ms) s = s\<lparr>currentX := last (currentX s # ms)\<rparr>"
  by (induction ms arbitrary: s) (simp_all add: touchmove_def)

lemma gesture_records:
  "run (TouchStart st # map TouchMove ms) s0
   = s0\<lparr>startX := st, currentX := last (currentX s0 # ms), isDragging := True\<rparr>"
proof -
  have "isDragging (touchstart st s0)"
    by (simp add: touchstart_def)
  then have "run (map TouchMove ms) (touchstart st s0)
             = (touchstart st s0)\<lparr>currentX := last (currentX (touchstart st s0) # ms)\<rparr>"
    by (rule run_touchmoves)
  then show ?thesis
    by (simp add: touchstart_def)
qed

lemma touchend_resolves:
  assumes "isDragging s"
  shows "touchend s =
           (if \<bar>startX s - currentX s\<bar> \<le> 50 then s\<lparr>isDragging := False\<rparr>
            else if startX s - currentX s > 0 then (next s)\<lparr>isDragging := False\<rparr>
            else (prev s)\<lparr>isDragging := False\<rparr>)"
  using assms
  by (auto simp: touchend_def touchDiff_def threshold_def Let_def)

text \<open>
  Claim C9. A gesture is a touchstart at \<open>st\<close>, any touchmoves, and a touchend; its
  recorded start position is \<open>st\<close>, its recorded end position \<open>c\<close> is the position of the
  last touchmove, or what \<^verbatim>\<open>currentX\<close> held before when there is none. If
  \<open>\<bar>st - c\<bar> \<le> 50\<close>, no navigation happens: only the three touch variables change. If
  \<open>\<bar>st - c\<bar> > 50\<close>, the touchend runs \<^verbatim>\<open>next()\<close> when \<open>st - c > 0\<close> and \<^verbatim>\<open>prev()\<close> when
  \<open>st - c < 0\<close>.
\<close>

theorem swipe_threshold:
  assumes "c = last (currentX s0 # ms)"
  shows "(\<bar>st - c\<bar> \<le> 50 \<longrightarrow>
            run (TouchStart st # map TouchMove ms @ [TouchEnd]) s0
            = s0\<lparr>startX := st, currentX := c, isDragging := False\<rparr>)
       \<and> (\<bar>st - c\<bar> > 50 \<and> st - c > 0 \<longrightarrow>
            run (TouchStart st # map TouchMove ms @ [TouchEnd]) s0
            = (next (s0\<lparr>startX := st, currentX := c, isDragging := True\<rparr>))
                \<lparr>isDragging := False\<rparr>)
       \<and> (\<bar>st - c\<bar> > 50 \<and> st - c < 0 \<longrightarrow>
            run (TouchStart st # map TouchMove ms @ [TouchEnd]) s0
            = (prev (s0\<lparr>startX := st, currentX := c, isDragging := True\<rparr>))
                \<lparr>isDragging := False\<rparr>)"
proof -
  let ?s = "s0\<lparr>startX := st, currentX := c, isDragging := True\<rparr>"
  have "run ((TouchStart st # map TouchMove ms) @ [TouchEnd]) s0
        = run [TouchEnd] (run (TouchStart st # map TouchMove ms) s0)"
    by (rule run_append)
  also have "\<dots> = touchend ?s"
    by (simp only: gesture_records assms) simp
  finally have g: "run (TouchStart st # map TouchMove ms @ [TouchEnd]) s0 = touchend ?s"
    by (simp only: append_Cons)
  have "isDragging ?s"
    by simp
  from touchend_resolves [OF this] show ?thesis
    unfolding g by auto
qed

theorem swipe_threshold_witness:
  "(51::int) = last (currentX (new_Carousel 3 3) # [80, 51]) \<and> \<bar>(100::int) - 51\<bar> \<le> 50
   \<and> run [TouchStart 100, TouchMove 80, TouchMove 51, TouchEnd] (new_Carousel 3 3)
       = (new_Carousel 3 3)\<lparr>startX := 100, currentX := 51, isDragging := False\<rparr>
   \<and> (49::int) = last (currentX (new_Carousel 3 3) # [80, 49])
   \<and> \<bar>(100::int) - 49\<bar> > 50 \<and> (100::int) - 49 > 0
   \<and> currentIndex
        (run [TouchStart 100, TouchMove 80, TouchMove 49, TouchEnd] (new_Carousel 3 3)) = 1
   \<and> (151::int) = last (currentX (run [ClickNext, TimerFires 2] (new_Carousel 3 3)) # [151])
   \<and> \<bar>(100::int) - 151\<bar> > 50 \<and> (100::int) - 151 < 0
   \<and> currentIndex
        (run [TouchStart 100, TouchMove 151, TouchEnd]
           (run [ClickNext, TimerFires 2] (new_Carousel 3 3))) = 0"
proof -
  let ?a = "new_Carousel 3 3"
  let ?b = "run [ClickNext, TimerFires 2] (new_Carousel 3 3)"
  have c: "(51::int) = last (currentX ?a # [80, 51])" "(49::int) = last (currentX ?a # [80, 49])"
    "(151::int) = last (currentX ?b # [151])"
    by simp_all
  have n: "currentIndex (next (?a\<lparr>startX := 100, currentX := 49, isDragging := True\<rparr>)) = 1"
    by code_simp
  have p: "currentIndex (prev (?b\<lparr>startX := 100, currentX := 151, isDragging := True\<rparr>)) = 0"
    by code_simp
  show ?thesis
    using n p swipe_threshold [OF c(1), of 100] swipe_threshold [OF c(2), of 100]
      swipe_threshold [OF c(3), of 100]
    by simp
qed

lemma currentX_frame:
  "currentX (next s) = currentX s"
  "currentX (prev s) = currentX s"
  "currentX (goToSlide i s) = currentX s"
  by (simp_all add: next_def prev_def goToSlide_def resetAutoplay_frame updateCarousel_frame)

lemma currentX_step:
  "(\<And>c. e \<noteq> TouchMove c) \<Longrightarrow> currentX (step e s) = currentX s"
  by (cases e)
     (auto simp: touchmove_def currentX_frame keydown_def touchstart_def touchend_def Let_def
        startAutoplay_frame stopAutoplay_frame fire_def autoplayCallback_def
        updateCarousel_frame unlockCallback_def clearTimer_def
        split: option.split timer.split)

text \<open>
  Claim C10. A touchstart at \<open>x\<close> followed by a touchend with no touchmove between
  them computes the displacement \<open>x - currentX\<close>, where \<^verbatim>\<open>currentX\<close> is what the last
  touchmove of an earlier gesture left there (no other event writes it) and 0 after
  construction; so on the first gesture a tap at \<open>x > 50\<close> runs \<^verbatim>\<open>next()\<close>, which with two
  slides or more moves to slide 1.
\<close>

theorem tap_uses_stale_position:
  "touchDiff (step (TouchStart x) s) = x - currentX s
   \<and> ((\<forall>c. e \<noteq> TouchMove c) \<longrightarrow> currentX (step e s) = currentX s)
   \<and> currentX (new_Carousel n k) = 0
   \<and> (x > 50 \<longrightarrow>
        run [TouchStart x, TouchEnd] (new_Carousel n k)
        = (next ((new_Carousel n k)\<lparr>startX := x, isDragging := True\<rparr>))\<lparr>isDragging := False\<rparr>)
   \<and> (x > 50 \<and> 2 \<le> n \<longrightarrow> currentIndex (run [TouchStart x, TouchEnd] (new_Carousel n k)) = 1)"
proof -
  have c0: "currentX (new_Carousel n k) = 0"
    by (simp add: new_Carousel_def startAutoplay_frame updateCarousel_frame markup_def)
  have i0: "currentIndex (new_Carousel n k) = 0" "isAnimating (new_Carousel n k) = False"
    "slideCount (new_Carousel n k) = n"
    by (simp_all add: new_Carousel_def startAutoplay_frame updateCarousel_frame updateCarousel_runs markup_def)
  have d: "touchDiff (step (TouchStart x) s) = x - currentX s"
    by (simp add: touchDiff_def touchstart_def)
  have r: "run [TouchStart x, TouchEnd] (new_Carousel n k)
        = (next ((new_Carousel n k)\<lparr>startX := x, isDragging := True\<rparr>))\<lparr>isDragging := False\<rparr>"
    if "x > 50"
    using that c0 by (simp add: touchstart_def touchend_def touchDiff_def threshold_def Let_def)
  have "currentIndex (next ((new_Carousel n k)\<lparr>startX := x, isDragging := True\<rparr>)) = 1"
    if "2 \<le> n"
    using that i0 by (simp add: next_def resetAutoplay_frame updateCarousel_runs)
  with r d c0 show ?thesis
    using currentX_step [of e s] by auto
qed

theorem tap_uses_stale_position_witness:
  "(60::int) > 50 \<and> (2::nat) \<le> 3 \<and> ClickNext \<noteq> TouchMove 0
   \<and> currentIndex (run [TouchStart 60, TouchEnd] (new_Carousel 3 3)) = 1
   \<and> touchDiff (step (TouchStart 60) (new_Carousel 3 3)) = 60"
  using tap_uses_stale_position [of 60 "new_Carousel 3 3" ClickNext 3 3]
  by auto


subsection \<open>The resize listener\<close>

lemma resizeCallback_without_instance:
  assumes "carouselInstance p = None"
  shows "carouselInstance (resizeCallback p) = None"
    and "resyncCalls (resizeCallback p) = resyncCalls p"
    and "store (resizeCallback p) = store p"
    and "callbackRuns (resizeCallback p) = Suc (callbackRuns p)"
  using assms by (simp_all add: resizeCallback_def Let_def)

lemma elapse_without_instance:
  assumes "carouselInstance p = None"
  shows "carouselInstance (elapse t p) = None"
    and "resyncCalls (elapse t p) = resyncCalls p"
    and "store (elapse t p) = store p"
  using assms by (simp_all add: elapse_def resizeCallback_without_instance split: option.split)

lemma resize_without_instance:
  assumes "carouselInstance p = None"
  shows "carouselInstance (resize t p) = None"
    and "resyncCalls (resize t p) = resyncCalls p"
    and "store (resize t p) = store p"
  using assms by (simp_all add: resize_def elapse_without_instance)

lemma resizeBurst_without_instance:
  "carouselInstance p = None \<Longrightarrow>
   carouselInstance (resizeBurst ts p) = None
   \<and> resyncCalls (resizeBurst ts p) = resyncCalls p
   \<and> store (resizeBurst ts p) = store p"
  by (induction ts arbitrary: p) (simp_all add: resize_without_instance)

lemma page_never_resyncs:
  "resyncCalls (elapse t (resizeBurst ts (domContentLoaded present n k))) = 0
   \<and> store (elapse t (resizeBurst ts (domContentLoaded present n k)))
       = store (domContentLoaded present n k)"
proof -
  have "carouselInstance (domContentLoaded present n k) = None"
    "resyncCalls (domContentLoaded present n k) = 0"
    by (simp_all add: domContentLoaded_def)
  then show ?thesis
    using resizeBurst_without_instance [of "domContentLoaded present n k" ts]
    by (simp add: elapse_without_instance)
qed

lemma burst_keeps_timeout_pending:
  "resizeTimer p = Some (t + 250) \<Longrightarrow> burst t us \<Longrightarrow>
   callbackRuns (resizeBurst us p) = callbackRuns p
   \<and> resizeTimer (resizeBurst us p) = Some (last (t # us) + 250)"
proof (induction us arbitrary: t p)
  case Nil
  then show ?case by simp
next
  case (Cons u us)
  then have quiet: "elapse u p = p"
    by (simp add: elapse_def)
  have "callbackRuns (resizeBurst us (resize u p)) = callbackRuns (resize u p)
        \<and> resizeTimer (resizeBurst us (resize u p)) = Some (last (u # us) + 250)"
    using Cons.prems by (intro Cons.IH) (simp_all add: resize_def)
  then show ?case
    by (simp add: resize_def quiet)
qed

lemma debounce_runs_callback_once:
  assumes "burst t us" and "last (t # us) + 250 \<le> t'"
  shows "callbackRuns (elapse t' (resizeBurst (t # us) p)) = Suc (callbackRuns (elapse t p))"
    and "resizeTimer (elapse t' (resizeBurst (t # us) p)) = None"
proof -
  have "resizeTimer (resize t p) = Some (t + 250)"
    by (simp add: resize_def)
  from burst_keeps_timeout_pending [OF this assms(1)]
  have "callbackRuns (resizeBurst (t # us) p) = callbackRuns (elapse t p)"
    and "resizeTimer (resizeBurst (t # us) p) = Some (last (t # us) + 250)"
    by (simp_all add: resize_def)
  with assms(2)
  show "callbackRuns (elapse t' (resizeBurst (t # us) p)) = Suc (callbackRuns (elapse t p))"
    and "resizeTimer (elapse t' (resizeBurst (t # us) p)) = None"
    by (simp_all add: elapse_def resizeCallback_def Let_def split: option.split)
qed

text \<open>
  Claim C6 fails on the code. After \<^verbatim>\<open>DOMContentLoaded\<close> on a page with a carousel of
  three slides, resize events at 0, 100 and 200 ms leave the timeout pending until
  450 ms; by 1000 ms its callback has run once, and it has not called
  \<^verbatim>\<open>updateCarousel\<close>: the container's \<^verbatim>\<open>carouselInstance\<close> is undefined, since nothing
  assigns it, and the carousel is as it was constructed.
\<close>

theorem resize_burst_makes_no_resync:
  "callbackRuns (resizeBurst [0, 100, 200] (domContentLoaded True 3 3)) = 0
   \<and> resizeTimer (resizeBurst [0, 100, 200] (domContentLoaded True 3 3)) = Some 450
   \<and> callbackRuns (elapse 1000 (resizeBurst [0, 100, 200] (domContentLoaded True 3 3))) = 1
   \<and> resizeTimer (elapse 1000 (resizeBurst [0, 100, 200] (domContentLoaded True 3 3))) = None
   \<and> resyncCalls (elapse 1000 (resizeBurst [0, 100, 200] (domContentLoaded True 3 3))) = 0
   \<and> store (elapse 1000 (resizeBurst [0, 100, 200] (domContentLoaded True 3 3))) 0
       = Some (new_Carousel 3 3)"
  by (simp add: domContentLoaded_def resize_def elapse_def resizeCallback_def Let_def)

end
